theory Spec2Isabelle
  imports Main
begin

section \<open>The form builder store (src/store/formBuilderStore.ts)\<close>

subsection \<open>Data model\<close>

text \<open>
  \<^verbatim>\<open>interface FormComponent\<close>. The fields \<open>id\<close> and \<open>type\<close> are written
  \<open>idC\<close> and \<open>typeC\<close>; an optional property (\<^verbatim>\<open>placeholder?\<close>, \<^verbatim>\<open>required?\<close>,
  \<^verbatim>\<open>options?\<close>) is \<open>None\<close> when the key is absent.
\<close>

record FormComponent =
  idC :: string
  typeC :: string
  label :: string
  placeholder :: "string option"
  required :: "bool option"
  options :: "string list option"

text \<open>
  \<^verbatim>\<open>Partial<FormComponent>\<close>: every key may be absent (\<open>None\<close>). A key that is present
  carries a value of the property's type.
\<close>

record PartialFormComponent =
  idC_p :: "string option"
  typeC_p :: "string option"
  label_p :: "string option"
  placeholder_p :: "string option"
  required_p :: "bool option"
  options_p :: "string list option"

record FormSettings =
  title :: string
  description :: string
  requireLogin :: bool
  collectEmail :: bool

record PartialFormSettings =
  title_p :: "string option"
  description_p :: "string option"
  requireLogin_p :: "bool option"
  collectEmail_p :: "bool option"

record HistoryState =
  components_h :: "FormComponent list"
  formSettings_h :: FormSettings
  selectedComponent_h :: "FormComponent option"

text \<open>The record held by \<^verbatim>\<open>recentlyDeleted\<close>; \<open>timestamp\<close> is a reading of \<^verbatim>\<open>Date.now()\<close>.\<close>

record RecentlyDeleted =
  component :: FormComponent
  index :: int
  timestamp :: int

text \<open>The data part of \<^verbatim>\<open>FormBuilderState\<close>; the actions are the functions below.\<close>

record FormBuilderState =
  components :: "FormComponent list"
  selectedComponent :: "FormComponent option"
  formSettings :: FormSettings
  isPreviewMode :: bool
  history :: "HistoryState list"
  currentHistoryIndex :: int
  recentlyDeleted :: "RecentlyDeleted option"

datatype error = TypeError

subsection \<open>The array primitives the store uses\<close>

text \<open>
  \<^verbatim>\<open>Array.prototype.slice(start, end)\<close>: a negative bound counts from the end, and both
  bounds are clamped to the array.
\<close>

definition js_slice :: "int \<Rightarrow> int \<Rightarrow> 'a list \<Rightarrow> 'a list" where
  "js_slice start fin xs =
     (let n = int (length xs);
          k = (if start < 0 then max (n + start) 0 else min start n);
          e = (if fin < 0 then max (n + fin) 0 else min fin n)
      in take (nat (e - k)) (drop (nat k) xs))"

text \<open>\<^verbatim>\<open>slice(start)\<close>: the end defaults to the length.\<close>

definition js_slice_from :: "int \<Rightarrow> 'a list \<Rightarrow> 'a list" where
  "js_slice_from start xs = js_slice start (int (length xs)) xs"

text \<open>\<^verbatim>\<open>xs[i]\<close>: \<open>None\<close> stands for \<^verbatim>\<open>undefined\<close>, the value of an index out of range.\<close>

definition js_index :: "'a list \<Rightarrow> int \<Rightarrow> 'a option" where
  "js_index xs i = (if 0 \<le> i \<and> i < int (length xs) then Some (xs ! nat i) else None)"

text \<open>\<^verbatim>\<open>findIndex\<close>: the index of the first element satisfying the predicate, else \<open>-1\<close>.\<close>

fun findIndex_from :: "int \<Rightarrow> ('a \<Rightarrow> bool) \<Rightarrow> 'a list \<Rightarrow> int" where
  "findIndex_from k P [] = - 1"
| "findIndex_from k P (x # xs) = (if P x then k else findIndex_from (k + 1) P xs)"

definition findIndex :: "('a \<Rightarrow> bool) \<Rightarrow> 'a list \<Rightarrow> int" where
  "findIndex P xs = findIndex_from 0 P xs"

text \<open>\<^verbatim>\<open>splice(start, 0, item)\<close>: insertion, with the start clamped as in \<open>js_slice\<close>.\<close>

definition js_splice_insert :: "int \<Rightarrow> 'a \<Rightarrow> 'a list \<Rightarrow> 'a list" where
  "js_splice_insert start item xs =
     (let n = int (length xs);
          k = (if start < 0 then max (n + start) 0 else min start n)
      in take (nat k) xs @ [item] @ drop (nat k) xs)"

subsection \<open>Object spreads\<close>

text \<open>\<^verbatim>\<open>{ ...comp, ...updates }\<close>: a key present in \<open>updates\<close> wins.\<close>

definition mergeComponent :: "FormComponent \<Rightarrow> PartialFormComponent \<Rightarrow> FormComponent" where
  "mergeComponent cmp updates =
     \<lparr> idC = (case idC_p updates of None \<Rightarrow> idC cmp | Some v \<Rightarrow> v),
       typeC = (case typeC_p updates of None \<Rightarrow> typeC cmp | Some v \<Rightarrow> v),
       label = (case label_p updates of None \<Rightarrow> label cmp | Some v \<Rightarrow> v),
       placeholder = (case placeholder_p updates of None \<Rightarrow> placeholder cmp | Some v \<Rightarrow> Some v),
       required = (case required_p updates of None \<Rightarrow> required cmp | Some v \<Rightarrow> Some v),
       options = (case options_p updates of None \<Rightarrow> options cmp | Some v \<Rightarrow> Some v) \<rparr>"

text \<open>\<^verbatim>\<open>{ ...state.formSettings, ...settings }\<close>.\<close>

definition mergeSettings :: "FormSettings \<Rightarrow> PartialFormSettings \<Rightarrow> FormSettings" where
  "mergeSettings fs settings =
     \<lparr> title = (case title_p settings of None \<Rightarrow> title fs | Some v \<Rightarrow> v),
       description = (case description_p settings of None \<Rightarrow> description fs | Some v \<Rightarrow> v),
       requireLogin = (case requireLogin_p settings of None \<Rightarrow> requireLogin fs | Some v \<Rightarrow> v),
       collectEmail = (case collectEmail_p settings of None \<Rightarrow> collectEmail fs | Some v \<Rightarrow> v) \<rparr>"

subsection \<open>Snapshots and the history\<close>

definition initialFormSettings :: FormSettings where
  "initialFormSettings =
     \<lparr> title = '''', description = '''', requireLogin = False, collectEmail = False \<rparr>"

text \<open>
  \<^verbatim>\<open>createHistoryState\<close> copies the array, the settings object and the selected
  component. The store never writes into an existing array or object (every update
  builds a new one), so copies are values here.
\<close>

definition createHistoryState ::
  "FormComponent list \<Rightarrow> FormSettings \<Rightarrow> FormComponent option \<Rightarrow> HistoryState" where
  "createHistoryState cs fs sel =
     \<lparr> components_h = cs, formSettings_h = fs, selectedComponent_h = sel \<rparr>"

definition pushToHistory :: "FormBuilderState \<Rightarrow> FormBuilderState" where
  "pushToHistory state =
     (let newHistoryState =
            createHistoryState (components state) (formSettings state) (selectedComponent state);
          newHistory = js_slice 0 (currentHistoryIndex state + 1) (history state) @ [newHistoryState];
          limitedHistory = js_slice_from (- 50) newHistory
      in state\<lparr> history := limitedHistory,
                currentHistoryIndex := int (length limitedHistory) - 1 \<rparr>)"

definition initialState :: FormBuilderState where
  "initialState =
     \<lparr> components = [],
       selectedComponent = None,
       formSettings = initialFormSettings,
       isPreviewMode = False,
       history = [createHistoryState [] initialFormSettings None],
       currentHistoryIndex = 0,
       recentlyDeleted = None \<rparr>"

subsection \<open>Actions\<close>

definition addComponent :: "FormComponent \<Rightarrow> FormBuilderState \<Rightarrow> FormBuilderState" where
  "addComponent cmp s =
     (let state = pushToHistory s
      in state\<lparr> components := components state @ [cmp], recentlyDeleted := None \<rparr>)"

definition updateComponent ::
  "string \<Rightarrow> PartialFormComponent \<Rightarrow> FormBuilderState \<Rightarrow> FormBuilderState" where
  "updateComponent i updates s =
     (let state = pushToHistory s
      in state\<lparr> components :=
                  map (\<lambda>cmp. if idC cmp = i then mergeComponent cmp updates else cmp)
                      (components state),
                selectedComponent :=
                  (case selectedComponent state of
                     None \<Rightarrow> None
                   | Some sel \<Rightarrow>
                       if idC sel = i then Some (mergeComponent sel updates) else Some sel),
                recentlyDeleted := None \<rparr>)"

text \<open>\<open>now\<close> is the value \<^verbatim>\<open>Date.now()\<close> returns during the call.\<close>

definition removeComponent :: "string \<Rightarrow> int \<Rightarrow> FormBuilderState \<Rightarrow> FormBuilderState" where
  "removeComponent i now state =
     (let componentIndex = findIndex (\<lambda>cmp. idC cmp = i) (components state);
          componentToDelete = js_index (components state) componentIndex
      in case componentToDelete of
           None \<Rightarrow> state
         | Some c \<Rightarrow>
             (pushToHistory state)
               \<lparr> components := filter (\<lambda>cmp. idC cmp \<noteq> i) (components state),
                 selectedComponent :=
                   (case selectedComponent state of
                      None \<Rightarrow> None
                    | Some sel \<Rightarrow> if idC sel = i then None else Some sel),
                 recentlyDeleted :=
                   Some \<lparr> component = c, index = componentIndex, timestamp = now \<rparr> \<rparr>)"

definition selectComponent :: "FormComponent option \<Rightarrow> FormBuilderState \<Rightarrow> FormBuilderState" where
  "selectComponent cmp s = s\<lparr> selectedComponent := cmp \<rparr>"

definition reorderComponents :: "FormComponent list \<Rightarrow> FormBuilderState \<Rightarrow> FormBuilderState" where
  "reorderComponents cs s = (pushToHistory s)\<lparr> components := cs, recentlyDeleted := None \<rparr>"

definition updateFormSettings :: "PartialFormSettings \<Rightarrow> FormBuilderState \<Rightarrow> FormBuilderState" where
  "updateFormSettings settings s =
     (let state = pushToHistory s
      in state\<lparr> formSettings := mergeSettings (formSettings state) settings,
                recentlyDeleted := None \<rparr>)"

definition setPreviewMode :: "bool \<Rightarrow> FormBuilderState \<Rightarrow> FormBuilderState" where
  "setPreviewMode isPreview s = s\<lparr> isPreviewMode := isPreview \<rparr>"

definition reset :: "FormBuilderState \<Rightarrow> FormBuilderState" where
  "reset s =
     (let resetState = createHistoryState [] initialFormSettings None
      in s\<lparr> components := [],
            selectedComponent := None,
            formSettings := initialFormSettings,
            isPreviewMode := False,
            history := [resetState],
            currentHistoryIndex := 0,
            recentlyDeleted := None \<rparr>)"

text \<open>
  \<^verbatim>\<open>set\<close> with the fields of a history entry. \<^verbatim>\<open>undo\<close> and \<^verbatim>\<open>redo\<close> read
  \<^verbatim>\<open>state.history[newIndex]\<close> and then its properties: when the index is out of range
  the entry is \<^verbatim>\<open>undefined\<close> and the property access throws a TypeError.
\<close>

definition restore :: "HistoryState \<Rightarrow> int \<Rightarrow> FormBuilderState \<Rightarrow> FormBuilderState" where
  "restore historyState newIndex s =
     s\<lparr> components := components_h historyState,
        formSettings := formSettings_h historyState,
        selectedComponent := selectedComponent_h historyState,
        currentHistoryIndex := newIndex,
        recentlyDeleted := None \<rparr>"

definition undo :: "FormBuilderState \<Rightarrow> error + (bool \<times> FormBuilderState)" where
  "undo state =
     (if currentHistoryIndex state > 0 then
        (let newIndex = currentHistoryIndex state - 1
         in case js_index (history state) newIndex of
              None \<Rightarrow> Inl TypeError
            | Some historyState \<Rightarrow> Inr (True, restore historyState newIndex state))
      else Inr (False, state))"

definition redo :: "FormBuilderState \<Rightarrow> error + (bool \<times> FormBuilderState)" where
  "redo state =
     (if currentHistoryIndex state < int (length (history state)) - 1 then
        (let newIndex = currentHistoryIndex state + 1
         in case js_index (history state) newIndex of
              None \<Rightarrow> Inl TypeError
            | Some historyState \<Rightarrow> Inr (True, restore historyState newIndex state))
      else Inr (False, state))"

definition canUndo :: "FormBuilderState \<Rightarrow> bool" where
  "canUndo s = (currentHistoryIndex s > 0)"

definition canRedo :: "FormBuilderState \<Rightarrow> bool" where
  "canRedo state = (currentHistoryIndex state < int (length (history state)) - 1)"

definition undoDelete :: "FormBuilderState \<Rightarrow> FormBuilderState" where
  "undoDelete state =
     (case recentlyDeleted state of
        None \<Rightarrow> state
      | Some rd \<Rightarrow>
          state\<lparr> components := js_splice_insert (index rd) (component rd) (components state),
                 recentlyDeleted := None \<rparr>)"

definition clearRecentlyDeleted :: "FormBuilderState \<Rightarrow> FormBuilderState" where
  "clearRecentlyDeleted s = s\<lparr> recentlyDeleted := None \<rparr>"

subsection \<open>Sequences of calls\<close>

text \<open>One constructor per action of the store; a call that throws ends the sequence.\<close>

datatype action =
    AddComponent FormComponent
  | UpdateComponent string PartialFormComponent
  | RemoveComponent string int
  | SelectComponent "FormComponent option"
  | ReorderComponents "FormComponent list"
  | UpdateFormSettings PartialFormSettings
  | SetPreviewMode bool
  | Reset
  | Undo
  | Redo
  | UndoDelete
  | ClearRecentlyDeleted

fun dispatch :: "action \<Rightarrow> FormBuilderState \<Rightarrow> error + FormBuilderState" where
  "dispatch (AddComponent c) s = Inr (addComponent c s)"
| "dispatch (UpdateComponent i u) s = Inr (updateComponent i u s)"
| "dispatch (RemoveComponent i now) s = Inr (removeComponent i now s)"
| "dispatch (SelectComponent c) s = Inr (selectComponent c s)"
| "dispatch (ReorderComponents cs) s = Inr (reorderComponents cs s)"
| "dispatch (UpdateFormSettings u) s = Inr (updateFormSettings u s)"
| "dispatch (SetPreviewMode b) s = Inr (setPreviewMode b s)"
| "dispatch Reset s = Inr (reset s)"
| "dispatch Undo s = (case undo s of Inl e \<Rightarrow> Inl e | Inr (b, s') \<Rightarrow> Inr s')"
| "dispatch Redo s = (case redo s of Inl e \<Rightarrow> Inl e | Inr (b, s') \<Rightarrow> Inr s')"
| "dispatch UndoDelete s = Inr (undoDelete s)"
| "dispatch ClearRecentlyDeleted s = Inr (clearRecentlyDeleted s)"

fun run :: "action list \<Rightarrow> FormBuilderState \<Rightarrow> error + FormBuilderState" where
  "run [] s = Inr s"
| "run (a # as) s = (case dispatch a s of Inl e \<Rightarrow> Inl e | Inr s' \<Rightarrow> run as s')"

text \<open>The document: fields sequence, settings and selection.\<close>

definition document :: "FormBuilderState \<Rightarrow> HistoryState" where
  "document s = createHistoryState (components s) (formSettings s) (selectedComponent s)"

text \<open>The invariant of the history: the cursor is inside it, and it holds at most 50 entries.\<close>

definition history_inv :: "FormBuilderState \<Rightarrow> bool" where
  "history_inv s \<longleftrightarrow>
     0 \<le> currentHistoryIndex s \<and>
     currentHistoryIndex s < int (length (history s)) \<and>
     length (history s) \<le> 50"

subsection \<open>Example data\<close>

text \<open>The two fields and the update of the concrete scenario; \<open>noUpdates\<close> is \<^verbatim>\<open>{}\<close>.\<close>

definition field_f1 :: FormComponent where
  "field_f1 = \<lparr> idC = ''f1'', typeC = ''text'', label = ''Name'',
                placeholder = None, required = None, options = None \<rparr>"

definition field_f2 :: FormComponent where
  "field_f2 = \<lparr> idC = ''f2'', typeC = ''select'', label = ''Color'',
                placeholder = None, required = None, options = Some [''Red'', ''Blue''] \<rparr>"

definition noUpdates :: PartialFormComponent where
  "noUpdates = \<lparr> idC_p = None, typeC_p = None, label_p = None,
                 placeholder_p = None, required_p = None, options_p = None \<rparr>"

definition requiredTrue :: PartialFormComponent where
  "requiredTrue = noUpdates\<lparr> required_p := Some True \<rparr>"

lemmas store_defs =
  addComponent_def updateComponent_def removeComponent_def undoDelete_def pushToHistory_def
  undo_def redo_def restore_def initialState_def document_def createHistoryState_def
  js_slice_def js_slice_from_def js_index_def js_splice_insert_def findIndex_def
  mergeComponent_def Let_def

lemmas example_defs = field_f1_def field_f2_def noUpdates_def requiredTrue_def

section \<open>Properties\<close>

subsection \<open>Array primitives\<close>

lemma js_slice_prefix: "0 \<le> e \<Longrightarrow> js_slice 0 e xs = take (nat e) xs"
  by (simp add: js_slice_def Let_def min_def)

lemma js_slice_from_last: "js_slice_from (- 50) xs = drop (length xs - 50) xs"
  by (auto simp add: js_slice_from_def js_slice_def Let_def max_def nat_diff_distrib')

lemma findIndex_from_absent: "\<forall>x \<in> set xs. \<not> P x \<Longrightarrow> findIndex_from k P xs = - 1"
  by (induction xs arbitrary: k) simp_all

lemma findIndex_from_append:
  "\<forall>x \<in> set xs. \<not> P x \<Longrightarrow> P y \<Longrightarrow> findIndex_from k P (xs @ y # ys) = k + int (length xs)"
  by (induction xs arbitrary: k) simp_all

lemma findIndex_absent: "\<forall>x \<in> set xs. \<not> P x \<Longrightarrow> js_index xs (findIndex P xs) = None"
  by (simp add: findIndex_def findIndex_from_absent js_index_def)

lemma findIndex_present:
  assumes "\<exists>x \<in> set xs. P x"
  shows "\<exists>c. js_index xs (findIndex P xs) = Some c"
proof -
  from assms obtain ys y zs
    where parts: "xs = ys @ y # zs" "P y" "\<forall>x \<in> set ys. \<not> P x"
    by (metis split_list_first_prop)
  then have "findIndex P xs = int (length ys)"
    by (simp add: findIndex_def findIndex_from_append)
  with parts show ?thesis by (simp add: js_index_def)
qed

lemma findIndex_last:
  "\<forall>x \<in> set xs. \<not> P x \<Longrightarrow> P y \<Longrightarrow> findIndex P (xs @ [y]) = int (length xs)"
  by (simp add: findIndex_def findIndex_from_append)

subsection \<open>What \<open>pushToHistory\<close> does\<close>

lemma pushToHistory_fields [simp]:
  "components (pushToHistory s) = components s"
  "selectedComponent (pushToHistory s) = selectedComponent s"
  "formSettings (pushToHistory s) = formSettings s"
  "isPreviewMode (pushToHistory s) = isPreviewMode s"
  "recentlyDeleted (pushToHistory s) = recentlyDeleted s"
  by (simp_all add: pushToHistory_def Let_def)

lemma pushToHistory_cursor:
  "currentHistoryIndex (pushToHistory s) = int (length (history (pushToHistory s))) - 1"
  by (simp add: pushToHistory_def Let_def)

lemma pushToHistory_length:
  "1 \<le> length (history (pushToHistory s)) \<and> length (history (pushToHistory s)) \<le> 50"
  by (auto simp add: pushToHistory_def Let_def js_slice_from_last)

lemma pushToHistory_inv: "history_inv (pushToHistory s)"
  using pushToHistory_length [of s]
  by (auto simp add: history_inv_def pushToHistory_cursor)

lemma pushToHistory_history:
  "history_inv s \<Longrightarrow>
   history (pushToHistory s) =
     (let h = take (nat (currentHistoryIndex s + 1)) (history s) @ [document s]
      in drop (length h - 50) h)"
  by (simp add: pushToHistory_def Let_def js_slice_from_last js_slice_prefix history_inv_def
      document_def)

lemma removeComponent_present:
  assumes "i \<in> idC ` set (components s)"
  shows "history (removeComponent i now s) = history (pushToHistory s) \<and>
         currentHistoryIndex (removeComponent i now s) = currentHistoryIndex (pushToHistory s)"
proof -
  from assms have "\<exists>c \<in> set (components s). idC c = i" by auto
  from findIndex_present [of "components s" "\<lambda>c. idC c = i", OF this]
  obtain c where "js_index (components s) (findIndex (\<lambda>c. idC c = i) (components s)) = Some c"
    by blast
  then show ?thesis by (simp add: removeComponent_def Let_def)
qed

subsection \<open>The history invariant\<close>

lemma initialState_inv: "history_inv initialState"
  by (simp add: history_inv_def initialState_def)

lemma addComponent_inv: "history_inv (addComponent c s)"
  using pushToHistory_inv [of s] by (simp add: addComponent_def Let_def history_inv_def)

lemma updateComponent_inv: "history_inv (updateComponent i u s)"
  using pushToHistory_inv [of s] by (simp add: updateComponent_def Let_def history_inv_def)

lemma reorderComponents_inv: "history_inv (reorderComponents cs s)"
  using pushToHistory_inv [of s] by (simp add: reorderComponents_def Let_def history_inv_def)

lemma updateFormSettings_inv: "history_inv (updateFormSettings u s)"
  using pushToHistory_inv [of s] by (simp add: updateFormSettings_def Let_def history_inv_def)

lemma removeComponent_inv: "history_inv s \<Longrightarrow> history_inv (removeComponent i now s)"
  using pushToHistory_inv [of s]
  by (simp add: removeComponent_def Let_def history_inv_def split: option.splits)

lemma undo_inv: "history_inv s \<Longrightarrow> \<exists>b s'. undo s = Inr (b, s') \<and> history_inv s'"
  by (auto simp add: undo_def Let_def js_index_def restore_def history_inv_def)

lemma redo_inv: "history_inv s \<Longrightarrow> \<exists>b s'. redo s = Inr (b, s') \<and> history_inv s'"
  by (auto simp add: redo_def Let_def js_index_def restore_def history_inv_def)

lemma dispatch_inv:
  assumes "history_inv s"
  shows "\<exists>s'. dispatch a s = Inr s' \<and> history_inv s'"
proof (cases a)
  case Undo
  with undo_inv [OF assms] show ?thesis by auto
next
  case Redo
  with redo_inv [OF assms] show ?thesis by auto
qed (use assms in \<open>simp_all add: addComponent_inv updateComponent_inv reorderComponents_inv
      updateFormSettings_inv removeComponent_inv\<close>,
     simp_all add: history_inv_def selectComponent_def setPreviewMode_def reset_def
      undoDelete_def clearRecentlyDeleted_def Let_def split: option.splits)

lemma run_inv: "history_inv s \<Longrightarrow> \<exists>s'. run as s = Inr s' \<and> history_inv s'"
proof (induction as arbitrary: s)
  case Nil
  then show ?case by simp
next
  case (Cons a as)
  from dispatch_inv [OF Cons.prems] obtain s1
    where s1: "dispatch a s = Inr s1" "history_inv s1" by blast
  from Cons.IH [OF s1(2)] s1(1) show ?case by simp
qed

section \<open>Specified properties\<close>

subsection \<open>Undo and redo after mutations\<close>

text \<open>
  C1 (round trip of N mutations, N undos, N redos). The store does not do this.
  \<open>pushToHistory\<close> runs before the mutation, so the entry at the cursor is the document
  as it was before the last mutation and the document after it is stored nowhere. From
  the initial state, one \<open>addComponent\<close> gives the document with \<open>field_f1\<close>; one undo
  gives the empty document; one redo restores the entry at index 1, which is the empty
  document again, and \<open>field_f1\<close> is lost.
\<close>

theorem undo_redo_loses_last_mutation:
  "map_sum id document (run [AddComponent field_f1] initialState) =
     Inr (createHistoryState [field_f1] initialFormSettings None) \<and>
   map_sum id document (run [AddComponent field_f1, Undo] initialState) =
     Inr (createHistoryState [] initialFormSettings None) \<and>
   map_sum id document (run [AddComponent field_f1, Undo, Redo] initialState) =
     Inr (createHistoryState [] initialFormSettings None)"
  by (simp add: store_defs)

text \<open>
  C2 (the concrete scenario). After adding \<open>f1\<close> and \<open>f2\<close> and setting
  \<open>required\<close> on \<open>f1\<close>, a single undo restores the entry taken before \<open>f2\<close> was added:
  the fields are \<open>[f1]\<close> and \<open>f2\<close> is gone. The redo that follows restores the entry
  taken before the update: \<open>f2\<close> is back, and \<open>required\<close> on \<open>f1\<close> is still absent.
\<close>

theorem scenario_undo_drops_f2:
  "map_sum id components
     (run [AddComponent field_f1, AddComponent field_f2,
           UpdateComponent ''f1'' requiredTrue] initialState) =
     Inr [field_f1\<lparr> required := Some True \<rparr>, field_f2] \<and>
   map_sum id components
     (run [AddComponent field_f1, AddComponent field_f2,
           UpdateComponent ''f1'' requiredTrue, Undo] initialState) =
     Inr [field_f1] \<and>
   map_sum id components
     (run [AddComponent field_f1, AddComponent field_f2,
           UpdateComponent ''f1'' requiredTrue, Undo, Redo] initialState) =
     Inr [field_f1, field_f2] \<and>
   required field_f1 = None \<and> field_f2 \<notin> set [field_f1]"
  by (simp add: store_defs example_defs)

subsection \<open>Branch discard\<close>

text \<open>
  C3 (after S0, S1, S2, one undo and a new mutation M leave the history \<open>[S0, S1, M-result]\<close>,
  with S2 out of reach of redo). The store does not do this, by the same order of
  \<open>pushToHistory\<close> and mutation as in C1 and C2. From the initial state \<open>S0\<close>, adding
  \<open>f1\<close> gives \<open>S1\<close> and updating it gives \<open>S2\<close>. The undo lands on \<open>S0\<close>, not \<open>S1\<close>,
  and after the new mutation \<open>addComponent field_f2\<close> the history holds three snapshots of
  \<open>S0\<close>: neither \<open>S1\<close> nor the result of the new mutation is in it. Nothing can be redone
  afterwards.
\<close>

theorem branch_discard_history_lacks_S1:
  "map_sum id document (run [AddComponent field_f1] initialState) =
     Inr (createHistoryState [field_f1] initialFormSettings None) \<and>
   map_sum id document
     (run [AddComponent field_f1, UpdateComponent ''f1'' requiredTrue, Undo] initialState) =
     Inr (document initialState) \<and>
   map_sum id history
     (run [AddComponent field_f1, UpdateComponent ''f1'' requiredTrue, Undo,
           AddComponent field_f2] initialState) =
     Inr [document initialState, document initialState, document initialState] \<and>
   map_sum id document
     (run [AddComponent field_f1, UpdateComponent ''f1'' requiredTrue, Undo,
           AddComponent field_f2] initialState) =
     Inr (createHistoryState [field_f2] initialFormSettings None) \<and>
   map_sum id canRedo
     (run [AddComponent field_f1, UpdateComponent ''f1'' requiredTrue, Undo,
           AddComponent field_f2] initialState) = Inr False \<and>
   document initialState \<noteq> createHistoryState [field_f1] initialFormSettings None \<and>
   document initialState \<noteq> createHistoryState [field_f2] initialFormSettings None"
  by (simp add: store_defs example_defs canRedo_def)

subsection \<open>The bounded history\<close>

text \<open>
  C4. The initial state satisfies the invariant \<open>0 \<le> currentHistoryIndex < length history\<close>
  and \<open>length history \<le> 50\<close>. From a state that satisfies it, every action of the store
  returns (none throws) a state that satisfies it, and so does every sequence of actions.
  A snapshot keeps the entries up to the cursor, appends the current document and keeps
  the last 50 entries of the result, so the oldest entry is the one dropped.
\<close>

theorem history_invariant_preserved:
  assumes "history_inv s"
  shows "history_inv initialState \<and>
         (\<exists>s'. dispatch a s = Inr s' \<and> history_inv s') \<and>
         (\<exists>s'. run as s = Inr s' \<and> history_inv s') \<and>
         history (pushToHistory s) =
           (let h = take (nat (currentHistoryIndex s + 1)) (history s) @ [document s]
            in drop (length h - 50) h)"
  using assms initialState_inv dispatch_inv run_inv pushToHistory_history by blast

theorem history_invariant_preserved_witness:
  "history_inv initialState \<and> history_inv (addComponent field_f1 initialState) \<and>
   history (pushToHistory initialState) = [document initialState, document initialState]"
proof -
  have h: "history_inv initialState" by (simp add: history_inv_def initialState_def)
  have e: "(let h = take (nat (currentHistoryIndex initialState + 1)) (history initialState) @
                 [document initialState]
            in drop (length h - 50) h) = [document initialState, document initialState]"
    by (simp add: initialState_def document_def)
  show ?thesis
    using h e history_invariant_preserved [OF h, of "AddComponent field_f1" "[]"] by auto
qed

subsection \<open>The guards of undo and redo\<close>

text \<open>
  C5. In a state satisfying the history invariant, \<open>undo\<close> returns true with a changed
  state exactly when \<open>currentHistoryIndex > 0\<close>, and returns false with the state as it
  was exactly when not; \<open>redo\<close> does the same for
  \<open>currentHistoryIndex < length history - 1\<close>; \<open>canUndo\<close> and \<open>canRedo\<close> are these two
  conditions.
\<close>

theorem undo_redo_guards:
  assumes "history_inv s"
  shows "((\<exists>s'. undo s = Inr (True, s') \<and> s' \<noteq> s) \<longleftrightarrow> currentHistoryIndex s > 0) \<and>
         (undo s = Inr (False, s) \<longleftrightarrow> \<not> currentHistoryIndex s > 0) \<and>
         ((\<exists>s'. redo s = Inr (True, s') \<and> s' \<noteq> s) \<longleftrightarrow>
            currentHistoryIndex s < int (length (history s)) - 1) \<and>
         (redo s = Inr (False, s) \<longleftrightarrow> \<not> currentHistoryIndex s < int (length (history s)) - 1) \<and>
         canUndo s = (currentHistoryIndex s > 0) \<and>
         canRedo s = (currentHistoryIndex s < int (length (history s)) - 1)"
proof -
  have moved: "restore h k s \<noteq> s" if "k \<noteq> currentHistoryIndex s" for h k
  proof
    assume "restore h k s = s"
    then have "currentHistoryIndex (restore h k s) = currentHistoryIndex s" by simp
    with that show False by (simp add: restore_def)
  qed
  have u1: "(\<exists>s'. undo s = Inr (True, s') \<and> s' \<noteq> s) \<longleftrightarrow> currentHistoryIndex s > 0"
    using assms moved [of "currentHistoryIndex s - 1"]
    by (auto simp add: undo_def Let_def js_index_def history_inv_def)
  have u2: "undo s = Inr (False, s) \<longleftrightarrow> \<not> currentHistoryIndex s > 0"
    by (auto simp add: undo_def Let_def split: option.splits)
  have r1: "(\<exists>s'. redo s = Inr (True, s') \<and> s' \<noteq> s) \<longleftrightarrow>
            currentHistoryIndex s < int (length (history s)) - 1"
    using assms moved [of "currentHistoryIndex s + 1"]
    by (auto simp add: redo_def Let_def js_index_def history_inv_def)
  have r2: "redo s = Inr (False, s) \<longleftrightarrow> \<not> currentHistoryIndex s < int (length (history s)) - 1"
    by (auto simp add: redo_def Let_def split: option.splits)
  from u1 u2 r1 r2 show ?thesis by (simp add: canUndo_def canRedo_def)
qed

theorem undo_redo_guards_witness:
  "history_inv (addComponent field_f1 initialState) \<and>
   canUndo (addComponent field_f1 initialState) \<and>
   \<not> canRedo (addComponent field_f1 initialState) \<and>
   redo (addComponent field_f1 initialState) = Inr (False, addComponent field_f1 initialState)"
proof -
  let ?s = "addComponent field_f1 initialState"
  have h: "history_inv ?s" by (simp add: history_inv_def store_defs)
  have k: "currentHistoryIndex ?s = 1" "length (history ?s) = 2" by (simp_all add: store_defs)
  show ?thesis using h k undo_redo_guards [OF h] by simp
qed

subsection \<open>Ids that match no field\<close>

text \<open>
  C6. When no field has the id, \<open>removeComponent\<close> returns the state as it was (history
  and cursor included), while \<open>updateComponent\<close> leaves the fields as they were and still
  takes a snapshot: the history becomes the entries up to the cursor followed by the
  current document (capped to the last 50), and the cursor is at that last entry.
\<close>

theorem remove_absent_noop_update_absent_pushes:
  assumes "i \<notin> idC ` set (components s)"
  shows "removeComponent i now s = s \<and>
         components (updateComponent i u s) = components s \<and>
         history (updateComponent i u s) =
           js_slice_from (- 50)
             (js_slice 0 (currentHistoryIndex s + 1) (history s) @ [document s]) \<and>
         last (history (updateComponent i u s)) = document s \<and>
         currentHistoryIndex (updateComponent i u s) =
           int (length (history (updateComponent i u s))) - 1"
proof -
  have none: "\<forall>c \<in> set (components s). \<not> idC c = i" using assms by auto
  have r: "removeComponent i now s = s"
    by (simp add: removeComponent_def Let_def findIndex_absent [OF none])
  have c: "components (updateComponent i u s) = components s"
    using none by (simp add: updateComponent_def Let_def map_idI)
  have h: "history (updateComponent i u s) =
           js_slice_from (- 50)
             (js_slice 0 (currentHistoryIndex s + 1) (history s) @ [document s])"
    by (simp add: updateComponent_def Let_def pushToHistory_def document_def)
  have l: "last (history (updateComponent i u s)) = document s"
    unfolding h by (simp add: js_slice_from_last)
  have k: "currentHistoryIndex (updateComponent i u s) =
           int (length (history (updateComponent i u s))) - 1"
    by (simp add: updateComponent_def Let_def pushToHistory_cursor)
  from r c h l k show ?thesis by blast
qed

theorem remove_absent_noop_update_absent_pushes_witness:
  "''f2'' \<notin> idC ` set (components (addComponent field_f1 initialState)) \<and>
   removeComponent ''f2'' 0 (addComponent field_f1 initialState) =
     addComponent field_f1 initialState \<and>
   length (history (addComponent field_f1 initialState)) = 2 \<and>
   length (history (updateComponent ''f2'' requiredTrue (addComponent field_f1 initialState))) = 3"
proof -
  let ?s = "addComponent field_f1 initialState"
  have h: "''f2'' \<notin> idC ` set (components ?s)" by (simp add: store_defs example_defs)
  have l: "length (history ?s) = 2"
    "length (js_slice_from (- 50)
             (js_slice 0 (currentHistoryIndex ?s + 1) (history ?s) @ [document ?s])) = 3"
    by (simp_all add: store_defs)
  show ?thesis
    using h l remove_absent_noop_update_absent_pushes [OF h, of 0 requiredTrue] by simp
qed

subsection \<open>The recently deleted slot\<close>

text \<open>
  C7. For a field \<open>F\<close> whose id no field of the state has: after \<open>addComponent F\<close> the
  fields are the old ones followed by \<open>F\<close>; \<open>removeComponent (idC F)\<close> then records
  \<open>F\<close>, its index (the old length) and the timestamp in the slot and removes \<open>F\<close>; and
  \<open>undoDelete\<close> gives back the fields as they were after the add, with \<open>F\<close> at its index,
  empties the slot and leaves history and cursor as they were.
\<close>

theorem add_remove_undoDelete_roundtrip:
  assumes "idC F \<notin> idC ` set (components s)"
  shows "components (addComponent F s) = components s @ [F] \<and>
         recentlyDeleted (removeComponent (idC F) now (addComponent F s)) =
           Some \<lparr> component = F, index = int (length (components s)), timestamp = now \<rparr> \<and>
         components (removeComponent (idC F) now (addComponent F s)) = components s \<and>
         components (undoDelete (removeComponent (idC F) now (addComponent F s))) =
           components (addComponent F s) \<and>
         js_index (components (undoDelete (removeComponent (idC F) now (addComponent F s))))
           (int (length (components s))) = Some F \<and>
         recentlyDeleted (undoDelete (removeComponent (idC F) now (addComponent F s))) = None \<and>
         history (undoDelete (removeComponent (idC F) now (addComponent F s))) =
           history (removeComponent (idC F) now (addComponent F s)) \<and>
         currentHistoryIndex (undoDelete (removeComponent (idC F) now (addComponent F s))) =
           currentHistoryIndex (removeComponent (idC F) now (addComponent F s))"
proof -
  let ?cs = "components s"
  let ?P = "\<lambda>c. idC c = idC F"
  have none: "\<forall>c \<in> set ?cs. \<not> ?P c" using assms by (metis image_eqI)
  have a: "components (addComponent F s) = ?cs @ [F]"
    by (simp add: addComponent_def Let_def)
  have ix: "findIndex ?P (?cs @ [F]) = int (length ?cs)"
    using none by (simp add: findIndex_last)
  have get: "js_index (?cs @ [F]) (int (length ?cs)) = Some F"
    by (simp add: js_index_def)
  have keep: "filter (\<lambda>c. idC c \<noteq> idC F) ?cs = ?cs"
    using none by (simp add: filter_id_conv)
  have r: "removeComponent (idC F) now (addComponent F s) =
           (pushToHistory (addComponent F s))
             \<lparr> components := ?cs,
               selectedComponent :=
                 (case selectedComponent (addComponent F s) of
                    None \<Rightarrow> None
                  | Some sel \<Rightarrow> if idC sel = idC F then None else Some sel),
               recentlyDeleted :=
                 Some \<lparr> component = F, index = int (length ?cs), timestamp = now \<rparr> \<rparr>"
    by (simp add: removeComponent_def Let_def a ix get keep)
  show ?thesis
    unfolding r by (simp add: a undoDelete_def js_splice_insert_def js_index_def)
qed

theorem add_remove_undoDelete_roundtrip_witness:
  "idC field_f2 \<notin> idC ` set (components (addComponent field_f1 initialState)) \<and>
   components (undoDelete (removeComponent (idC field_f2) 5
     (addComponent field_f2 (addComponent field_f1 initialState)))) = [field_f1, field_f2] \<and>
   recentlyDeleted (removeComponent (idC field_f2) 5
     (addComponent field_f2 (addComponent field_f1 initialState))) =
     Some \<lparr> component = field_f2, index = 1, timestamp = 5 \<rparr>"
proof -
  let ?s = "addComponent field_f1 initialState"
  have h: "idC field_f2 \<notin> idC ` set (components ?s)" by (simp add: store_defs example_defs)
  have c: "components ?s = [field_f1]" by (simp add: store_defs)
  show ?thesis
    using h c add_remove_undoDelete_roundtrip [OF h, of 5] by simp
qed

text \<open>
  C8, as the store does it. After a \<open>removeComponent\<close>, each of \<open>addComponent\<close>,
  \<open>updateComponent\<close>, \<open>reorderComponents\<close> and \<open>updateFormSettings\<close> empties the slot, so
  in the sequence remove, add, \<open>undoDelete\<close> the \<open>undoDelete\<close> returns the state as it
  was. (A further \<open>removeComponent\<close> is not among them: see the counterexample.)
\<close>

theorem edit_after_remove_clears_slot:
  "recentlyDeleted (addComponent G (removeComponent i now s)) = None \<and>
   recentlyDeleted (updateComponent j u (removeComponent i now s)) = None \<and>
   recentlyDeleted (reorderComponents cs (removeComponent i now s)) = None \<and>
   recentlyDeleted (updateFormSettings st (removeComponent i now s)) = None \<and>
   undoDelete (addComponent G (removeComponent i now s)) =
     addComponent G (removeComponent i now s)"
  by (simp add: addComponent_def updateComponent_def reorderComponents_def
      updateFormSettings_def undoDelete_def Let_def)

text \<open>
  A structural mutation that does not empty the slot: with \<open>f1\<close> and \<open>f2\<close> in the
  document, removing \<open>f1\<close> and then \<open>f2\<close> leaves the record of \<open>f2\<close> in the slot, and
  \<open>undoDelete\<close> changes the fields from \<open>[]\<close> to \<open>[f2]\<close>.
\<close>

theorem second_remove_keeps_slot_counterexample:
  "map_sum id recentlyDeleted
     (run [AddComponent field_f1, AddComponent field_f2,
           RemoveComponent ''f1'' 1, RemoveComponent ''f2'' 2] initialState) =
     Inr (Some \<lparr> component = field_f2, index = 0, timestamp = 2 \<rparr>) \<and>
   map_sum id components
     (run [AddComponent field_f1, AddComponent field_f2,
           RemoveComponent ''f1'' 1, RemoveComponent ''f2'' 2] initialState) = Inr [] \<and>
   map_sum id components
     (run [AddComponent field_f1, AddComponent field_f2,
           RemoveComponent ''f1'' 1, RemoveComponent ''f2'' 2, UndoDelete] initialState) =
     Inr [field_f2]"
  by (simp add: store_defs example_defs)

subsection \<open>Selection\<close>

text \<open>
  C9. For a field \<open>X\<close> of the document, after \<open>selectComponent X\<close> and then
  \<open>updateComponent (idC X)\<close> with the update \<^verbatim>\<open>{label: v}\<close>, the selection is \<open>X\<close> with
  the label \<open>v\<close> (for \<open>v = ''new''\<close>, its label is \<open>''new''\<close>), and that updated field is in
  the fields sequence.
\<close>

theorem selection_follows_update:
  assumes "X \<in> set (components s)"
  shows "selectedComponent
           (updateComponent (idC X) (noUpdates\<lparr> label_p := Some v \<rparr>)
              (selectComponent (Some X) s)) = Some (X\<lparr> label := v \<rparr>) \<and>
         map_option label
           (selectedComponent
              (updateComponent (idC X) (noUpdates\<lparr> label_p := Some v \<rparr>)
                 (selectComponent (Some X) s))) = Some v \<and>
         X\<lparr> label := v \<rparr> \<in>
           set (components
                  (updateComponent (idC X) (noUpdates\<lparr> label_p := Some v \<rparr>)
                     (selectComponent (Some X) s)))"
  using assms
  by (auto simp add: updateComponent_def selectComponent_def Let_def mergeComponent_def
      noUpdates_def intro!: rev_image_eqI [of X])

theorem selection_follows_update_witness:
  "field_f1 \<in> set (components (addComponent field_f1 initialState)) \<and>
   map_option label
     (selectedComponent
        (updateComponent (idC field_f1) (noUpdates\<lparr> label_p := Some ''new'' \<rparr>)
           (selectComponent (Some field_f1) (addComponent field_f1 initialState)))) =
     Some ''new''"
proof -
  have h: "field_f1 \<in> set (components (addComponent field_f1 initialState))"
    by (simp add: store_defs)
  show ?thesis using h selection_follows_update [OF h, of "''new''"] by simp
qed

subsection \<open>No redo after an edit\<close>

text \<open>
  C10. In every state, right after \<open>addComponent\<close>, \<open>updateComponent\<close>,
  \<open>reorderComponents\<close> and \<open>updateFormSettings\<close> the cursor is \<open>length history - 1\<close>
  and \<open>canRedo\<close> is false; the same holds right after \<open>removeComponent\<close> of an id that a
  field of the state has.
\<close>

theorem mutation_leaves_cursor_at_tip:
  "currentHistoryIndex (addComponent c s) = int (length (history (addComponent c s))) - 1 \<and>
   \<not> canRedo (addComponent c s) \<and>
   currentHistoryIndex (updateComponent j u s) =
     int (length (history (updateComponent j u s))) - 1 \<and>
   \<not> canRedo (updateComponent j u s) \<and>
   currentHistoryIndex (reorderComponents cs s) =
     int (length (history (reorderComponents cs s))) - 1 \<and>
   \<not> canRedo (reorderComponents cs s) \<and>
   currentHistoryIndex (updateFormSettings st s) =
     int (length (history (updateFormSettings st s))) - 1 \<and>
   \<not> canRedo (updateFormSettings st s) \<and>
   (i \<in> idC ` set (components s) \<longrightarrow>
      currentHistoryIndex (removeComponent i now s) =
        int (length (history (removeComponent i now s))) - 1 \<and>
      \<not> canRedo (removeComponent i now s))"
proof -
  have four:
    "currentHistoryIndex (addComponent c s) = int (length (history (addComponent c s))) - 1"
    "currentHistoryIndex (updateComponent j u s) =
       int (length (history (updateComponent j u s))) - 1"
    "currentHistoryIndex (reorderComponents cs s) =
       int (length (history (reorderComponents cs s))) - 1"
    "currentHistoryIndex (updateFormSettings st s) =
       int (length (history (updateFormSettings st s))) - 1"
    using pushToHistory_cursor [of s]
    by (simp_all add: addComponent_def updateComponent_def reorderComponents_def
        updateFormSettings_def Let_def)
  have rem: "currentHistoryIndex (removeComponent i now s) =
               int (length (history (removeComponent i now s))) - 1"
    if "i \<in> idC ` set (components s)"
    using removeComponent_present [OF that, of now] pushToHistory_cursor [of s] by simp
  from four rem show ?thesis by (simp add: canRedo_def)
qed

text \<open>
  On the fresh store (no fields) an add leaves nothing to redo; with \<open>f1\<close> in the
  document, removing \<open>f1\<close> leaves nothing to redo either.
\<close>

theorem mutation_leaves_cursor_at_tip_witness:
  "\<not> canRedo (addComponent field_f1 initialState) \<and>
   currentHistoryIndex (addComponent field_f1 initialState) = 1 \<and>
   ''f1'' \<in> idC ` set (components (addComponent field_f1 initialState)) \<and>
   \<not> canRedo (removeComponent ''f1'' 0 (addComponent field_f1 initialState)) \<and>
   currentHistoryIndex (removeComponent ''f1'' 0 (addComponent field_f1 initialState)) =
     int (length (history (removeComponent ''f1'' 0 (addComponent field_f1 initialState)))) - 1"
proof -
  let ?s = "addComponent field_f1 initialState"
  have h: "''f1'' \<in> idC ` set (components ?s)" by (simp add: store_defs example_defs)
  have k: "length (history ?s) = 2" by (simp add: store_defs)
  show ?thesis
    using h k mutation_leaves_cursor_at_tip [of field_f1 initialState]
      mutation_leaves_cursor_at_tip [of _ ?s _ _ _ _ "''f1''" 0]
    by simp
qed

end
